theory Spec2Isabelle
  imports Complex_Main "HOL-Library.Word"
begin

section \<open>Values exchanged with the host\<close>

text \<open>
  The component \<open>VoiceToText\<close> (src/component/VoiceToText.jsx) drives the browser's
  SpeechRecognition object. JavaScript strings are sequences of UTF-16 code units; the
  transcripts come from the engine and may hold any of them, so a transcript is a list of
  16-bit words. Language tags, console messages and identifier names are ASCII literals of
  the source and stay HOL strings.
\<close>

type_synonym js_string = "16 word list"

definition utf16 :: "string \<Rightarrow> js_string" where
  "utf16 cs = map (\<lambda>c. word_of_nat (of_char c)) cs"

text \<open>
  \<open>String.prototype.trim\<close> strips the ECMAScript WhiteSpace and LineTerminator code
  points from both ends: TAB, LF, VT, FF, CR, SPACE, NBSP, the other space separators
  (U+1680, U+2000..U+200A, U+202F, U+205F, U+3000), LS, PS and the BOM. All of them are
  single code units.
\<close>

definition js_whitespace :: "16 word \<Rightarrow> bool" where
  "js_whitespace c =
     (c = 0x9 \<or> c = 0xA \<or> c = 0xB \<or> c = 0xC \<or> c = 0xD \<or> c = 0x20 \<or> c = 0xA0
      \<or> c = 0x1680 \<or> (0x2000 \<le> c \<and> c \<le> 0x200A) \<or> c = 0x2028 \<or> c = 0x2029
      \<or> c = 0x202F \<or> c = 0x205F \<or> c = 0x3000 \<or> c = 0xFEFF)"

definition trim :: "js_string \<Rightarrow> js_string" where
  "trim s = rev (dropWhile js_whitespace (rev (dropWhile js_whitespace s)))"

text \<open>
  \<open>highConfidence\<close> starts as \<open>null\<close> and takes \<open>res[0].confidence\<close>, a number, or
  \<open>undefined\<close> when the alternative carries none. The number is only stored and compared
  with \<open>null\<close>, never computed with.
\<close>

datatype js_value = JsNull | JsUndefined | JsNumber real

record alternative =
  transcript :: js_string
  confidence :: js_value

text \<open>
  A SpeechRecognitionResult: the handler reads \<open>isFinal\<close> and item 0 only
  (\<open>maxAlternatives\<close> is 1, so item 0 is the one alternative the engine delivers).
\<close>

record speech_result =
  isFinal :: bool
  item0 :: alternative

record result_event =
  resultIndex :: nat
  results :: "speech_result list"

datatype js_error = ReferenceError string | TypeError string | HostError string

text \<open>What a call into the host did: it returned, or it threw (a promise that rejects
  throws at its \<open>await\<close>).\<close>

datatype outcome = Returns | Throws js_error

datatype console_entry = Console_error string js_error | Console_warn js_error

text \<open>The calls the component makes on the engine, in order; a start is recorded with the
  value the engine's \<open>lang\<close> property holds at the call.\<close>

datatype engine_call = Start_call string | Stop_call

section \<open>The component's state\<close>

record speech_recognition =
  continuous :: bool
  interimResults :: bool
  maxAlternatives :: nat
  r_lang :: string

text \<open>
  The five \<open>useState\<close> cells and the two refs, then what lives outside React: the value
  of \<open>listening\<close> that the closures built by the mount effect captured (the effect has
  the dependency list \<open>[]\<close>, so they are built once), the host's clock in milliseconds,
  its pending timeouts as (id, due time), the calls made on the engine and the console.
  The local \<open>r\<close> of the mount effect and \<open>recognitionRef.current\<close> are the same object
  from the mount on; the model keeps that object in \<open>recognitionRef\<close>.
\<close>

record component =
  supported :: bool
  listening :: bool
  finalTranscript :: js_string
  interimTranscript :: js_string
  lang :: string
  recognitionRef :: "speech_recognition option"
  timerRef :: "nat option"
  captured_listening :: bool
  clock :: nat
  timers :: "(nat \<times> nat) list"
  next_timer :: nat
  engine_calls :: "engine_call list"
  console :: "console_entry list"

definition initial_render :: component where
  "initial_render =
     \<lparr>supported = True, listening = False, finalTranscript = [], interimTranscript = [],
      lang = ''en-US'', recognitionRef = None, timerRef = None,
      captured_listening = False, clock = 0, timers = [], next_timer = 1,
      engine_calls = [], console = []\<rparr>"

text \<open>The first effect (lines 19-86): feature detection, then the engine and its handlers.
  \<open>api\<close> says whether the browser offers SpeechRecognition. The cleanup the effect returns
  runs when the component is unmounted, after which no event reaches it; the events below
  are those of the mounted component.\<close>

definition mount_effect :: "bool \<Rightarrow> component \<Rightarrow> component" where
  "mount_effect api s =
     (if \<not> api then s\<lparr>supported := False\<rparr>
      else s\<lparr>recognitionRef :=
                Some \<lparr>continuous = True, interimResults = True, maxAlternatives = 1,
                      r_lang = lang s\<rparr>,
              captured_listening := listening s\<rparr>)"

text \<open>The second effect (lines 88-92), run after the mount and whenever \<open>lang\<close> changed.\<close>

definition lang_effect :: "component \<Rightarrow> component" where
  "lang_effect s =
     (case recognitionRef s of
        None \<Rightarrow> s
      | Some r \<Rightarrow> s\<lparr>recognitionRef := Some (r\<lparr>r_lang := lang s\<rparr>)\<rparr>)"

definition mount :: "bool \<Rightarrow> component" where
  "mount api = lang_effect (mount_effect api initial_render)"

text \<open>The language picker's \<open>onChange\<close>: \<open>setLang\<close> with the chosen value. React keeps the
  state and runs no effect when the value is the one it holds.\<close>

definition setLang :: "string \<Rightarrow> component \<Rightarrow> component" where
  "setLang tag s = (if tag = lang s then s else lang_effect (s\<lparr>lang := tag\<rparr>))"

section \<open>The result handler\<close>

text \<open>
  \<open>setConfidence\<close> is called on lines 55 and 126, and the module neither declares nor
  imports it (there is no \<open>useState\<close> cell for a confidence): evaluating the identifier
  throws a ReferenceError.
\<close>

definition setConfidence :: "js_value \<Rightarrow> component \<Rightarrow> js_error + component" where
  "setConfidence v s = Inl (ReferenceError ''setConfidence'')"

text \<open>The loop of lines 38-46, with its three locals \<open>(interim, final, highConfidence)\<close>.\<close>

function loop ::
  "speech_result list \<Rightarrow> nat \<Rightarrow> js_string \<times> js_string \<times> js_value
     \<Rightarrow> js_string \<times> js_string \<times> js_value" where
  "loop rs i (interim, final, highConfidence) =
     (if i < length rs then
        (let res = rs ! i in
         if isFinal res
         then loop rs (Suc i)
                (interim, final @ transcript (item0 res), confidence (item0 res))
         else loop rs (Suc i)
                (interim @ transcript (item0 res), final, highConfidence))
      else (interim, final, highConfidence))"
  by pat_completeness auto
termination
  by (relation "measure (\<lambda>(rs, i, acc). length rs - i)") auto

text \<open>
  A handler returns the state its setters left and the exception that escaped it, if any:
  a setter called before the throw has already queued its update, and React commits it.
\<close>

definition onresult :: "result_event \<Rightarrow> component \<Rightarrow> component \<times> js_error option" where
  "onresult event s =
     (case loop (results event) (resultIndex event) ([], [], JsNull) of
        (interim, final, highConfidence) \<Rightarrow>
          (let s1 = (if final \<noteq> []
                     then s\<lparr>finalTranscript :=
                              (if finalTranscript s \<noteq> []
                               then finalTranscript s @ [0x20] @ trim final
                               else trim final),
                            interimTranscript := []\<rparr>
                     else s\<lparr>interimTranscript := interim\<rparr>)
           in if highConfidence \<noteq> JsNull
              then (case setConfidence highConfidence s1 of
                      Inl e \<Rightarrow> (s1, Some e)
                    | Inr s2 \<Rightarrow> (s2, None))
              else (s1, None)))"

definition handleClear :: "component \<Rightarrow> component \<times> js_error option" where
  "handleClear s =
     (let s1 = s\<lparr>finalTranscript := []\<rparr>;
          s2 = s1\<lparr>interimTranscript := []\<rparr>
      in case setConfidence JsNull s2 of
           Inl e \<Rightarrow> (s2, Some e)
         | Inr s3 \<Rightarrow> (s3, None))"

section \<open>Timers, end and error handlers\<close>

definition clearTimeout :: "nat option \<Rightarrow> component \<Rightarrow> component" where
  "clearTimeout h s =
     (case h of
        None \<Rightarrow> s
      | Some k \<Rightarrow> s\<lparr>timers := filter (\<lambda>t. fst t \<noteq> k) (timers s)\<rparr>)"

definition setTimeout :: "nat \<Rightarrow> component \<Rightarrow> component \<times> nat" where
  "setTimeout delay s =
     (s\<lparr>timers := timers s @ [(next_timer s, clock s + delay)],
        next_timer := Suc (next_timer s)\<rparr>, next_timer s)"

text \<open>\<open>r.onend\<close> (lines 58-66). \<open>listening\<close> here is the variable of the render that ran
  the mount effect.\<close>

definition onend :: "component \<Rightarrow> component" where
  "onend s =
     (case recognitionRef s of
        None \<Rightarrow> s
      | Some r \<Rightarrow>
          (let s1 = s\<lparr>recognitionRef := Some r\<rparr> in
           if captured_listening s1 then
             (case setTimeout 150 (clearTimeout (timerRef s1) s1) of
                (s2, k) \<Rightarrow> s2\<lparr>timerRef := Some k\<rparr>)
           else s1))"

definition onerror :: "string \<Rightarrow> component \<Rightarrow> component" where
  "onerror code s =
     s\<lparr>console := console s @ [Console_error ''Speech recognition error'' (HostError code)]\<rparr>"

text \<open>The timeout's callback, \<open>() => r.start()\<close>.\<close>

definition restart :: "component \<Rightarrow> component" where
  "restart s =
     (case recognitionRef s of
        None \<Rightarrow> s
      | Some r \<Rightarrow> s\<lparr>engine_calls := engine_calls s @ [Start_call (r_lang r)]\<rparr>)"

text \<open>The host's clock moves on by \<open>dt\<close> milliseconds and runs every timeout that is due.\<close>

definition advance :: "nat \<Rightarrow> component \<Rightarrow> component" where
  "advance dt s =
     (let now = clock s + dt;
          due = filter (\<lambda>t. snd t \<le> now) (timers s);
          rest = filter (\<lambda>t. \<not> snd t \<le> now) (timers s)
      in fold (\<lambda>t. restart) due (s\<lparr>clock := now, timers := rest\<rparr>))"

section \<open>The start/stop button\<close>

text \<open>
  \<open>toggleListening\<close> (lines 94-121). \<open>media\<close> is what \<open>await getUserMedia\<close> did, \<open>engine\<close>
  what the engine's \<open>start()\<close> or \<open>stop()\<close> did. Every throw is caught inside, so the
  function has no error result. \<open>listening\<close> is read from the render the click belongs to.

  \<open>start_branch\<close> is the body of \<open>if (!listening)\<close> (lines 98-112): all of it runs after
  the \<open>await\<close>, on the state of that moment, and reads the ref again (a call on \<open>null\<close>
  would be a TypeError, caught like any other).
\<close>

definition start_branch :: "outcome \<Rightarrow> outcome \<Rightarrow> component \<Rightarrow> component" where
  "start_branch media engine s =
     (case media of
        Throws err \<Rightarrow>
          s\<lparr>console := console s @ [Console_error ''Microphone permission denied'' err]\<rparr>
      | Returns \<Rightarrow>
          (case recognitionRef s of
             None \<Rightarrow> s\<lparr>console := console s @ [Console_warn (TypeError ''start'')]\<rparr>
           | Some r \<Rightarrow>
               (let s1 = s\<lparr>engine_calls := engine_calls s @ [Start_call (r_lang r)]\<rparr> in
                case engine of
                  Returns \<Rightarrow> s1\<lparr>listening := True\<rparr>
                | Throws e \<Rightarrow> s1\<lparr>console := console s1 @ [Console_warn e]\<rparr>)))"

definition toggleListening :: "outcome \<Rightarrow> outcome \<Rightarrow> component \<Rightarrow> component" where
  "toggleListening media engine s =
     (case recognitionRef s of
        None \<Rightarrow> s
      | Some r \<Rightarrow>
          if \<not> listening s then start_branch media engine s
          else
            (let s1 = s\<lparr>engine_calls := engine_calls s @ [Stop_call]\<rparr>;
                 s2 = (case engine of
                         Returns \<Rightarrow> s1
                       | Throws e \<Rightarrow> s1\<lparr>console := console s1 @ [Console_warn e]\<rparr>)
             in s2\<lparr>listening := False\<rparr>))"

section \<open>Events and reachable states\<close>

text \<open>
  What can happen to the mounted component: a click on the start/stop button (with what
  the host then does), the engine's three events, a choice in the language picker, a click
  on Clear, and time passing. The engine's events need the engine, hence its handlers.
  \<open>Ev_toggle\<close> is a click whose \<open>await\<close> no other event overtakes; \<open>Ev_resume\<close> is the
  rest of a start request running after events that arrived while it waited for the
  permission (such a request exists only when the engine does).
\<close>

datatype event =
    Ev_toggle outcome outcome
  | Ev_resume outcome outcome
  | Ev_result result_event
  | Ev_end
  | Ev_error string
  | Ev_setLang string
  | Ev_clear
  | Ev_advance nat

fun step :: "event \<Rightarrow> component \<Rightarrow> component" where
  "step (Ev_toggle media engine) s = toggleListening media engine s"
| "step (Ev_resume media engine) s =
     (if recognitionRef s = None then s else start_branch media engine s)"
| "step (Ev_result ev) s = (if recognitionRef s = None then s else fst (onresult ev s))"
| "step Ev_end s = onend s"
| "step (Ev_error code) s = (if recognitionRef s = None then s else onerror code s)"
| "step (Ev_setLang tag) s = setLang tag s"
| "step Ev_clear s = fst (handleClear s)"
| "step (Ev_advance dt) s = advance dt s"

inductive reachable :: "component \<Rightarrow> bool" where
  mounted: "reachable (mount api)"
| stepped: "reachable s \<Longrightarrow> reachable (step e s)"

text \<open>Two facts that hold in every reachable state: no restart is pending, and the
  engine's \<open>lang\<close> property is the component's \<open>lang\<close> (without an engine, nothing
  listens).\<close>

definition no_restart_pending :: "component \<Rightarrow> bool" where
  "no_restart_pending s = (timers s = [] \<and> timerRef s = None \<and> \<not> captured_listening s)"

definition engine_in_step :: "component \<Rightarrow> bool" where
  "engine_in_step s =
     (case recognitionRef s of
        None \<Rightarrow> \<not> listening s
      | Some r \<Rightarrow> r_lang r = lang s)"

section \<open>What a batch holds\<close>

text \<open>The entries of a result event are those from \<open>resultIndex\<close> on; its final text and
  its interim text are the transcripts of item 0 of the final and of the other entries, one
  after the other; the confidence it leaves is that of its last final entry.\<close>

definition entries :: "result_event \<Rightarrow> speech_result list" where
  "entries event = drop (resultIndex event) (results event)"

definition top_texts :: "speech_result list \<Rightarrow> js_string list" where
  "top_texts rs = map (\<lambda>res. transcript (item0 res)) rs"

definition top_text :: "speech_result list \<Rightarrow> js_string" where
  "top_text rs = concat (top_texts rs)"

definition final_text :: "result_event \<Rightarrow> js_string" where
  "final_text event = top_text (filter isFinal (entries event))"

definition interim_text :: "result_event \<Rightarrow> js_string" where
  "interim_text event = top_text (filter (\<lambda>res. \<not> isFinal res) (entries event))"

fun last_confidence :: "speech_result list \<Rightarrow> js_value \<Rightarrow> js_value" where
  "last_confidence [] v = v"
| "last_confidence (res # rest) v =
     last_confidence rest (if isFinal res then confidence (item0 res) else v)"

text \<open>The joining the specification words: the texts with a single space between them.\<close>

fun space_joined :: "js_string list \<Rightarrow> js_string" where
  "space_joined [] = []"
| "space_joined [x] = x"
| "space_joined (x # y # ys) = x @ [0x20] @ space_joined (y # ys)"

section \<open>Concrete runs\<close>

definition interim_hello :: result_event where
  "interim_hello =
     \<lparr>resultIndex = 0,
      results = [\<lparr>isFinal = False,
                  item0 = \<lparr>transcript = utf16 ''hello'', confidence = JsUndefined\<rparr>\<rparr>]\<rparr>"

definition final_hello_world :: result_event where
  "final_hello_world =
     \<lparr>resultIndex = 0,
      results = [\<lparr>isFinal = True,
                  item0 = \<lparr>transcript = utf16 ''hello world'',
                           confidence = JsNumber (9 / 10)\<rparr>\<rparr>]\<rparr>"

text \<open>A final entry whose transcript is empty, followed by an interim entry.\<close>

definition empty_final_then_interim :: result_event where
  "empty_final_then_interim =
     \<lparr>resultIndex = 0,
      results = [\<lparr>isFinal = True,
                  item0 = \<lparr>transcript = [], confidence = JsNumber 0\<rparr>\<rparr>,
                 \<lparr>isFinal = False,
                  item0 = \<lparr>transcript = utf16 ''hi'', confidence = JsUndefined\<rparr>\<rparr>]\<rparr>"

definition two_interim :: result_event where
  "two_interim =
     \<lparr>resultIndex = 0,
      results = [\<lparr>isFinal = False,
                  item0 = \<lparr>transcript = utf16 ''ab'', confidence = JsUndefined\<rparr>\<rparr>,
                 \<lparr>isFinal = False,
                  item0 = \<lparr>transcript = utf16 ''cd'', confidence = JsUndefined\<rparr>\<rparr>]\<rparr>"

text \<open>The event of \<open>interim_hello\<close> again, with \<open>resultIndex\<close> at the end of its list.\<close>

definition echo_hello :: result_event where
  "echo_hello = interim_hello\<lparr>resultIndex := 1\<rparr>"

text \<open>Mounted with the API present, then: the user started, permission was granted and the
  engine started; the first interim result arrived; the final result arrived.\<close>

definition started :: component where
  "started = toggleListening Returns Returns (mount True)"

definition heard_hello :: component where
  "heard_hello = fst (onresult interim_hello started)"

definition heard_hello_world :: component where
  "heard_hello_world = fst (onresult final_hello_world heard_hello)"

text \<open>The listening component with a restart timeout pending: what lines 63-64 leave when
  they run.\<close>

definition restart_pending :: component where
  "restart_pending = started\<lparr>timerRef := Some 1, timers := [(1, 150)], next_timer := 2\<rparr>"

text \<open>What the rendered output reads (lines 131-221): the five \<open>useState\<close> cells and
  nothing else.\<close>

definition observable :: "component \<Rightarrow> bool \<times> bool \<times> js_string \<times> js_string \<times> string" where
  "observable s =
     (supported s, listening s, finalTranscript s, interimTranscript s, lang s)"


section \<open>The loop, characterised\<close>

declare loop.simps [simp del]

lemma loop_entries:
  "loop rs i (a, b, c) =
     (a @ top_text (filter (\<lambda>res. \<not> isFinal res) (drop i rs)),
      b @ top_text (filter isFinal (drop i rs)),
      last_confidence (drop i rs) c)"
proof (induction rs i "(a, b, c)" arbitrary: a b c rule: loop.induct)
  case (1 rs i interim final highConfidence)
  show ?case
  proof (cases "i < length rs")
    case True
    then have d: "drop i rs = rs ! i # drop (Suc i) rs"
      by (simp add: Cons_nth_drop_Suc)
    show ?thesis
    proof (cases "isFinal (rs ! i)")
      case True
      with \<open>i < length rs\<close> "1.hyps"(1)[OF \<open>i < length rs\<close> refl True] d show ?thesis
        by (subst loop.simps) (simp add: Let_def top_text_def top_texts_def)
    next
      case False
      with \<open>i < length rs\<close> "1.hyps"(2)[OF \<open>i < length rs\<close> refl False] d show ?thesis
        by (subst loop.simps) (simp add: Let_def top_text_def top_texts_def)
    qed
  next
    case False
    then show ?thesis by (subst loop.simps) (simp add: top_text_def top_texts_def)
  qed
qed

lemma loop_event:
  "loop (results event) (resultIndex event) ([], [], JsNull) =
     (interim_text event, final_text event, last_confidence (entries event) JsNull)"
  by (simp add: loop_entries interim_text_def final_text_def entries_def)

lemma last_confidence_no_final:
  "\<not> list_ex isFinal rs \<Longrightarrow> last_confidence rs v = v"
  by (induction rs arbitrary: v) auto

lemma filter_no_final: "\<not> list_ex isFinal rs \<Longrightarrow> filter isFinal rs = []"
  by (induction rs) auto

lemma filter_all_interim:
  "\<not> list_ex isFinal rs \<Longrightarrow> filter (\<lambda>res. \<not> isFinal res) rs = rs"
  by (induction rs) auto

lemma onresult_unfold:
  "onresult event s =
     (let s1 = (if final_text event \<noteq> []
                then s\<lparr>finalTranscript :=
                         (if finalTranscript s \<noteq> []
                          then finalTranscript s @ [0x20] @ trim (final_text event)
                          else trim (final_text event)),
                       interimTranscript := []\<rparr>
                else s\<lparr>interimTranscript := interim_text event\<rparr>)
      in if last_confidence (entries event) JsNull \<noteq> JsNull
         then (s1, Some (ReferenceError ''setConfidence''))
         else (s1, None))"
  by (simp add: onresult_def loop_event setConfidence_def Let_def)

lemmas run_defs =
  started_def heard_hello_def heard_hello_world_def mount_def mount_effect_def
  lang_effect_def initial_render_def toggleListening_def start_branch_def onresult_unfold
  final_text_def interim_text_def entries_def top_text_def top_texts_def utf16_def
  interim_hello_def final_hello_world_def empty_final_then_interim_def two_interim_def
  echo_hello_def restart_pending_def observable_def trim_def js_whitespace_def Let_def

section \<open>Reachable states\<close>

lemma onresult_frame:
  "timers (fst (onresult event s)) = timers s"
  "timerRef (fst (onresult event s)) = timerRef s"
  "captured_listening (fst (onresult event s)) = captured_listening s"
  "recognitionRef (fst (onresult event s)) = recognitionRef s"
  "lang (fst (onresult event s)) = lang s"
  "listening (fst (onresult event s)) = listening s"
  "engine_calls (fst (onresult event s)) = engine_calls s"
  by (simp_all add: onresult_unfold Let_def)

lemma handleClear_eq:
  "handleClear s =
     (s\<lparr>finalTranscript := [], interimTranscript := []\<rparr>,
      Some (ReferenceError ''setConfidence''))"
  by (simp add: handleClear_def setConfidence_def Let_def)

lemma mount_invariant: "no_restart_pending (mount api) \<and> engine_in_step (mount api)"
  by (cases api)
     (simp_all add: no_restart_pending_def engine_in_step_def mount_def mount_effect_def
        lang_effect_def initial_render_def)

lemma onend_idle:
  assumes "no_restart_pending s"
  shows "onend s = s"
proof (cases "recognitionRef s")
  case None
  then show ?thesis by (simp add: onend_def)
next
  case (Some r)
  with assms show ?thesis by (simp add: onend_def no_restart_pending_def)
qed

lemma advance_idle:
  assumes "no_restart_pending s"
  shows "advance dt s = s\<lparr>clock := clock s + dt\<rparr>"
  using assms by (simp add: advance_def no_restart_pending_def Let_def)

lemma toggle_invariant:
  assumes "no_restart_pending s" "engine_in_step s"
  shows "no_restart_pending (toggleListening media engine s) \<and>
         engine_in_step (toggleListening media engine s)"
  using assms
  by (auto simp: toggleListening_def start_branch_def no_restart_pending_def
        engine_in_step_def Let_def
      split: option.splits outcome.splits)

lemma resume_invariant:
  assumes "no_restart_pending s" "engine_in_step s" "recognitionRef s \<noteq> None"
  shows "no_restart_pending (start_branch media engine s) \<and>
         engine_in_step (start_branch media engine s)"
  using assms
  by (auto simp: start_branch_def no_restart_pending_def engine_in_step_def Let_def
      split: option.splits outcome.splits)

lemma setLang_invariant:
  assumes "no_restart_pending s" "engine_in_step s"
  shows "no_restart_pending (setLang tag s) \<and> engine_in_step (setLang tag s)"
  using assms
  by (auto simp: setLang_def lang_effect_def no_restart_pending_def engine_in_step_def
      split: option.splits)

lemma step_invariant:
  assumes "no_restart_pending s" "engine_in_step s"
  shows "no_restart_pending (step e s) \<and> engine_in_step (step e s)"
proof (cases e)
  case (Ev_toggle media engine)
  with toggle_invariant[OF assms] show ?thesis by simp
next
  case (Ev_resume media engine)
  with resume_invariant[OF assms] assms show ?thesis by simp
next
  case (Ev_result ev)
  with assms show ?thesis
    by (auto simp: no_restart_pending_def engine_in_step_def onresult_frame
        split: option.splits)
next
  case Ev_end
  with assms show ?thesis by (simp add: onend_idle)
next
  case (Ev_error code)
  with assms show ?thesis
    by (auto simp: no_restart_pending_def engine_in_step_def onerror_def
        split: option.splits)
next
  case (Ev_setLang tag)
  with setLang_invariant[OF assms] show ?thesis by simp
next
  case Ev_clear
  with assms show ?thesis
    by (auto simp: no_restart_pending_def engine_in_step_def handleClear_eq
        split: option.splits)
next
  case (Ev_advance dt)
  with assms show ?thesis
    by (auto simp: advance_idle no_restart_pending_def engine_in_step_def
        split: option.splits)
qed

lemma reachable_invariant:
  "reachable s \<Longrightarrow> no_restart_pending s \<and> engine_in_step s"
proof (induction rule: reachable.induct)
  case (mounted api)
  show ?case by (rule mount_invariant)
next
  case (stepped s e)
  then show ?case by (simp add: step_invariant)
qed

lemma reachable_started: "reachable started"
  unfolding started_def
  using reachable.stepped[OF reachable.mounted, of "Ev_toggle Returns Returns" True]
  by simp


section \<open>Merging result events\<close>

text \<open>
  C1 (as amended). For every result event whose accumulated final text, the transcripts of
  its final entries one after the other, is not empty: after the handler the final
  transcript is the previous one with that text trimmed and appended, after a single space
  when the previous one is not empty and as it is otherwise, and the interim transcript is
  empty. The state is the one the two setters leave; the handler's last line comes after
  them.
\<close>

theorem final_batch_appends_trimmed:
  assumes "final_text event \<noteq> []"
  shows "finalTranscript (fst (onresult event s)) =
           (if finalTranscript s = [] then trim (final_text event)
            else finalTranscript s @ [0x20] @ trim (final_text event))
         \<and> interimTranscript (fst (onresult event s)) = []"
  using assms by (simp add: onresult_unfold Let_def)

theorem final_batch_appends_trimmed_witness:
  "final_text final_hello_world \<noteq> []
   \<and> finalTranscript (fst (onresult final_hello_world heard_hello)) = utf16 ''hello world''
   \<and> interimTranscript (fst (onresult final_hello_world heard_hello)) = []"
proof -
  have h: "final_text final_hello_world \<noteq> []"
    by (simp add: run_defs)
  have t: "trim (final_text final_hello_world) = utf16 ''hello world''"
    by (simp add: run_defs)
  have p: "finalTranscript heard_hello = []"
    by (simp add: run_defs)
  from final_batch_appends_trimmed[OF h, of heard_hello] h t p show ?thesis
    by simp
qed

text \<open>
  C1 as stated fails on a batch whose only final entry has an empty transcript: the guard
  \<open>if (final)\<close> takes the other branch, so the interim transcript is set to the batch's
  interim text and the final transcript gets no separating space.
\<close>

theorem final_batch_counterexample:
  "list_ex isFinal (entries empty_final_then_interim)
   \<and> finalTranscript heard_hello_world \<noteq> []
   \<and> interimTranscript (fst (onresult empty_final_then_interim heard_hello_world)) \<noteq> []
   \<and> finalTranscript (fst (onresult empty_final_then_interim heard_hello_world)) \<noteq>
       finalTranscript heard_hello_world @ [0x20]
         @ trim (final_text empty_final_then_interim)"
  by (simp add: run_defs)

text \<open>
  C3 (as amended). For every result event with no final entry: the handler replaces the
  interim transcript by the transcripts of the event's entries one after the other, with
  nothing between them, changes nothing else (the final transcript stays) and throws
  nothing.
\<close>

theorem interim_batch_replaces_interim:
  assumes "\<not> list_ex isFinal (entries event)"
  shows "onresult event s = (s\<lparr>interimTranscript := top_text (entries event)\<rparr>, None)"
proof -
  from assms have "final_text event = []"
    by (simp add: final_text_def filter_no_final top_text_def top_texts_def)
  moreover from assms have "interim_text event = top_text (entries event)"
    by (simp add: interim_text_def filter_all_interim)
  moreover from assms have "last_confidence (entries event) JsNull = JsNull"
    by (rule last_confidence_no_final)
  ultimately show ?thesis
    by (simp add: onresult_unfold)
qed

theorem interim_batch_replaces_interim_witness:
  "\<not> list_ex isFinal (entries interim_hello)
   \<and> onresult interim_hello started =
       (started\<lparr>interimTranscript := utf16 ''hello''\<rparr>, None)
   \<and> finalTranscript (fst (onresult interim_hello started)) = []"
proof -
  have h: "\<not> list_ex isFinal (entries interim_hello)"
    by (simp add: interim_hello_def entries_def)
  have t: "top_text (entries interim_hello) = utf16 ''hello''"
    by (simp add: interim_hello_def entries_def top_text_def top_texts_def)
  have f: "finalTranscript started = []"
    by (simp add: run_defs)
  from interim_batch_replaces_interim[OF h, of started] h t f show ?thesis
    by simp
qed

text \<open>C3 as stated fails on two interim entries: \<open>ab\<close> and \<open>cd\<close> give \<open>abcd\<close>, and joined
  by a space they are \<open>ab cd\<close>.\<close>

theorem interim_batch_counterexample:
  "\<not> list_ex isFinal (entries two_interim)
   \<and> space_joined (top_texts (entries two_interim)) = utf16 ''ab cd''
   \<and> interimTranscript (fst (onresult two_interim started)) = utf16 ''abcd''
   \<and> interimTranscript (fst (onresult two_interim started)) \<noteq>
       space_joined (top_texts (entries two_interim))"
  by (simp add: run_defs)

text \<open>
  C8 (as amended). For every result event with no entries (\<open>resultIndex\<close> at or past the
  end of the result list): the handler sets the interim transcript to the empty string,
  changes nothing else (the final transcript stays) and throws nothing.
\<close>

theorem empty_batch_clears_interim:
  assumes "length (results event) \<le> resultIndex event"
  shows "onresult event s = (s\<lparr>interimTranscript := []\<rparr>, None)"
proof -
  from assms have e: "entries event = []"
    by (simp add: entries_def)
  then show ?thesis
    by (simp add: onresult_unfold final_text_def interim_text_def top_text_def top_texts_def)
qed

theorem empty_batch_clears_interim_witness:
  "length (results echo_hello) \<le> resultIndex echo_hello
   \<and> onresult echo_hello heard_hello = (heard_hello\<lparr>interimTranscript := []\<rparr>, None)"
proof -
  have h: "length (results echo_hello) \<le> resultIndex echo_hello"
    by (simp add: echo_hello_def interim_hello_def)
  from empty_batch_clears_interim[OF h, of heard_hello] h show ?thesis
    by simp
qed

text \<open>C8 as stated fails when an interim transcript is on display: the event with no
  entries wipes it.\<close>

theorem empty_batch_counterexample:
  "entries echo_hello = []
   \<and> interimTranscript heard_hello = utf16 ''hello''
   \<and> interimTranscript (fst (onresult echo_hello heard_hello)) \<noteq> interimTranscript heard_hello"
  by (simp add: run_defs)

section \<open>The undeclared setter\<close>

text \<open>
  C4. \<open>handleClear\<close> empties both transcripts and then throws a ReferenceError at
  \<open>setConfidence(null)\<close>, in every state; the component has no confidence to reset.
\<close>

theorem handleClear_throws:
  "snd (handleClear s) = Some (ReferenceError ''setConfidence'')
   \<and> fst (handleClear s) = s\<lparr>finalTranscript := [], interimTranscript := []\<rparr>"
  by (simp add: handleClear_def setConfidence_def Let_def)

text \<open>
  C5. The final result \<open>hello world\<close> with confidence 0.9, arriving after the interim
  \<open>hello\<close>: the transcript is merged and the handler throws a ReferenceError at
  \<open>setConfidence(highConfidence)\<close>; no confidence is published.
\<close>

theorem final_with_confidence_throws:
  "last_confidence (entries final_hello_world) JsNull = JsNumber (9 / 10)
   \<and> snd (onresult final_hello_world heard_hello) = Some (ReferenceError ''setConfidence'')
   \<and> finalTranscript (fst (onresult final_hello_world heard_hello)) = utf16 ''hello world''"
  by (simp add: run_defs)

section \<open>Restarting after the engine's end\<close>

text \<open>
  C2. The user has started and the engine runs (\<open>listening\<close> is true); the engine's end
  event fires. The handler sees the \<open>listening\<close> of the first render, which is false:
  it schedules no timeout, and after 150 ms the engine has been started no further time.
\<close>

theorem end_while_listening_schedules_nothing:
  "listening started
   \<and> captured_listening started = False
   \<and> timers (onend started) = []
   \<and> timerRef (onend started) = None
   \<and> engine_calls started = [Start_call ''en-US'']
   \<and> engine_calls (advance 150 (onend started)) = [Start_call ''en-US'']"
  by (simp add: run_defs onend_def advance_def)


section \<open>Starting and stopping\<close>




text \<open>
  C7 (as amended). A start request (a click while not listening, the engine present) whose
  \<open>getUserMedia\<close> is rejected: the denial is written to the console as the error
  \<open>Microphone permission denied\<close> and nothing else changes; \<open>listening\<close> stays false, no
  call is made on the engine, and what the rendered output reads is what it was.
\<close>

theorem permission_denied_stays_idle:
  assumes "\<not> listening s" and "recognitionRef s = Some r"
  shows "toggleListening (Throws err) engine s =
           s\<lparr>console := console s @ [Console_error ''Microphone permission denied'' err]\<rparr>
         \<and> listening (toggleListening (Throws err) engine s) = False
         \<and> engine_calls (toggleListening (Throws err) engine s) = engine_calls s
         \<and> observable (toggleListening (Throws err) engine s) = observable s"
  using assms by (simp add: toggleListening_def start_branch_def observable_def)

theorem permission_denied_stays_idle_witness:
  "\<not> listening (mount True)
   \<and> recognitionRef (mount True) =
       Some \<lparr>continuous = True, interimResults = True, maxAlternatives = 1,
             r_lang = ''en-US''\<rparr>
   \<and> listening (toggleListening (Throws (HostError ''NotAllowedError'')) Returns (mount True))
       = False
   \<and> engine_calls
       (toggleListening (Throws (HostError ''NotAllowedError'')) Returns (mount True)) = []
   \<and> console (toggleListening (Throws (HostError ''NotAllowedError'')) Returns (mount True))
       = [Console_error ''Microphone permission denied'' (HostError ''NotAllowedError'')]"
proof -
  have l: "\<not> listening (mount True)"
    by (simp add: run_defs)
  have r: "recognitionRef (mount True) =
             Some \<lparr>continuous = True, interimResults = True, maxAlternatives = 1,
                   r_lang = ''en-US''\<rparr>"
    by (simp add: run_defs)
  have c: "engine_calls (mount True) = []" "console (mount True) = []"
    by (simp_all add: run_defs)
  from permission_denied_stays_idle[OF l r, of "HostError ''NotAllowedError''" Returns] l r c
  show ?thesis
    by simp
qed

text \<open>
  C7 as stated fails on the freshly mounted component: after the denied start request the
  five cells the output reads hold what they held before it, so no condition is there for
  the display to observe; the component has no cell for one.
\<close>

theorem permission_denied_counterexample:
  "observable (toggleListening (Throws (HostError ''NotAllowedError'')) Returns (mount True))
     = observable (mount True)
   \<and> observable (mount True) = (True, False, [], [], ''en-US'')"
  by (simp add: run_defs)

text \<open>
  C10. A start request (a click while not listening, the engine present) whose permission
  is granted and whose \<open>start()\<close> throws: the call is made, what it threw ends as a
  console warning, and nothing else changes; \<open>listening\<close> stays false and both
  transcripts stay.
\<close>

theorem failed_start_stays_idle:
  assumes "\<not> listening s" and "recognitionRef s = Some r"
  shows "toggleListening Returns (Throws e) s =
           s\<lparr>engine_calls := engine_calls s @ [Start_call (r_lang r)],
             console := console s @ [Console_warn e]\<rparr>
         \<and> listening (toggleListening Returns (Throws e) s) = False
         \<and> finalTranscript (toggleListening Returns (Throws e) s) = finalTranscript s
         \<and> interimTranscript (toggleListening Returns (Throws e) s) = interimTranscript s"
  using assms by (simp add: toggleListening_def start_branch_def Let_def)

theorem failed_start_stays_idle_witness:
  "\<not> listening (mount True)
   \<and> recognitionRef (mount True) =
       Some \<lparr>continuous = True, interimResults = True, maxAlternatives = 1,
             r_lang = ''en-US''\<rparr>
   \<and> listening (toggleListening Returns (Throws (HostError ''InvalidStateError'')) (mount True))
       = False
   \<and> console (toggleListening Returns (Throws (HostError ''InvalidStateError'')) (mount True))
       = [Console_warn (HostError ''InvalidStateError'')]
   \<and> finalTranscript
       (toggleListening Returns (Throws (HostError ''InvalidStateError'')) (mount True)) = []"
proof -
  have l: "\<not> listening (mount True)"
    by (simp add: run_defs)
  have r: "recognitionRef (mount True) =
             Some \<lparr>continuous = True, interimResults = True, maxAlternatives = 1,
                   r_lang = ''en-US''\<rparr>"
    by (simp add: run_defs)
  have c: "console (mount True) = []" "finalTranscript (mount True) = []"
    by (simp_all add: run_defs)
  from failed_start_stays_idle[OF l r, of "HostError ''InvalidStateError''"] l r c
  show ?thesis
    by simp
qed

section \<open>Changing the language\<close>

text \<open>
  C9 (as amended). In a reachable state that is listening, choosing a language: the
  component's \<open>lang\<close> is the new tag at once, the \<open>lang\<close> property of the engine object
  in use is overwritten with it at once, and nothing else changes: no call is made on the
  engine, \<open>listening\<close> stays true and the engine object stays the one of the mount. A
  stop and a start after it (permission granted) are made on that object, whose \<open>lang\<close>
  property holds the new tag at the \<open>start()\<close>.
\<close>

theorem setLang_writes_engine_lang:
  assumes "reachable s" and "listening s"
  shows "setLang tag s =
           s\<lparr>lang := tag,
             recognitionRef := map_option (\<lambda>r. r\<lparr>r_lang := tag\<rparr>) (recognitionRef s)\<rparr>
         \<and> lang (setLang tag s) = tag
         \<and> map_option r_lang (recognitionRef (setLang tag s)) = Some tag
         \<and> listening (setLang tag s)
         \<and> engine_calls (setLang tag s) = engine_calls s
         \<and> recognitionRef
             (toggleListening Returns engine2 (toggleListening media engine1 (setLang tag s)))
             = recognitionRef (setLang tag s)
         \<and> engine_calls
             (toggleListening Returns engine2 (toggleListening media engine1 (setLang tag s)))
             = engine_calls s @ [Stop_call, Start_call tag]"
proof -
  from assms(1) have inv: "engine_in_step s"
    using reachable_invariant by blast
  from inv assms(2) obtain r where r: "recognitionRef s = Some r" "r_lang r = lang s"
    by (auto simp: engine_in_step_def split: option.splits)
  define s1 where "s1 = setLang tag s"
  have eq: "s1 = s\<lparr>lang := tag, recognitionRef := Some (r\<lparr>r_lang := tag\<rparr>)\<rparr>"
  proof (cases "tag = lang s")
    case True
    with r have "r\<lparr>r_lang := tag\<rparr> = r"
      by simp
    with True r show ?thesis
      by (simp add: s1_def setLang_def)
  next
    case False
    with r show ?thesis
      by (simp add: s1_def setLang_def lang_effect_def)
  qed
  have f: "lang s1 = tag" "listening s1" "engine_calls s1 = engine_calls s"
    "recognitionRef s1 = Some (r\<lparr>r_lang := tag\<rparr>)"
    using assms(2) by (simp_all add: eq)
  define s2 where "s2 = toggleListening media engine1 s1"
  have g: "listening s2 = False" "engine_calls s2 = engine_calls s @ [Stop_call]"
    "recognitionRef s2 = Some (r\<lparr>r_lang := tag\<rparr>)"
    using f by (simp_all add: s2_def toggleListening_def Let_def split: outcome.splits)
  have h: "engine_calls (toggleListening Returns engine2 s2) =
             engine_calls s @ [Stop_call, Start_call tag]"
    "recognitionRef (toggleListening Returns engine2 s2) = Some (r\<lparr>r_lang := tag\<rparr>)"
    using g
    by (simp_all add: toggleListening_def start_branch_def Let_def split: outcome.splits)
  from eq r f h show ?thesis
    unfolding s1_def s2_def by simp
qed

theorem setLang_writes_engine_lang_witness:
  "reachable started \<and> listening started
   \<and> lang (setLang ''hi-IN'' started) = ''hi-IN''
   \<and> map_option r_lang (recognitionRef (setLang ''hi-IN'' started)) = Some ''hi-IN''
   \<and> engine_calls (setLang ''hi-IN'' started) = [Start_call ''en-US'']
   \<and> engine_calls
       (toggleListening Returns Returns
         (toggleListening Returns Returns (setLang ''hi-IN'' started)))
       = [Start_call ''en-US'', Stop_call, Start_call ''hi-IN'']"
proof -
  have l: "listening started"
    by (simp add: run_defs)
  have c: "engine_calls started = [Start_call ''en-US'']"
    by (simp add: run_defs)
  note th = setLang_writes_engine_lang[OF reachable_started l, of "''hi-IN''" Returns Returns
      Returns]
  have a2: "lang (setLang ''hi-IN'' started) = ''hi-IN''"
    by (rule th[THEN conjunct2, THEN conjunct1])
  have a3: "map_option r_lang (recognitionRef (setLang ''hi-IN'' started)) = Some ''hi-IN''"
    by (rule th[THEN conjunct2, THEN conjunct2, THEN conjunct1])
  have a5: "engine_calls (setLang ''hi-IN'' started) = [Start_call ''en-US'']"
    using th[THEN conjunct2, THEN conjunct2, THEN conjunct2, THEN conjunct2, THEN conjunct1] c
    by simp
  have a7: "engine_calls
              (toggleListening Returns Returns
                (toggleListening Returns Returns (setLang ''hi-IN'' started)))
              = [Start_call ''en-US'', Stop_call, Start_call ''hi-IN'']"
    using th[THEN conjunct2, THEN conjunct2, THEN conjunct2, THEN conjunct2, THEN conjunct2,
        THEN conjunct2] c
    by simp
  from reachable_started l a2 a3 a5 a7 show ?thesis
    by blast
qed

text \<open>
  C9 as stated fails in the listening component: the engine object started under
  \<open>en-US\<close> has its \<open>lang\<close> property set to \<open>hi-IN\<close> by the choice, while \<open>listening\<close> is
  true and without a stop or a start.
\<close>

theorem setLang_counterexample:
  "listening started
   \<and> map_option r_lang (recognitionRef started) = Some ''en-US''
   \<and> listening (setLang ''hi-IN'' started)
   \<and> map_option r_lang (recognitionRef (setLang ''hi-IN'' started)) = Some ''hi-IN''
   \<and> engine_calls (setLang ''hi-IN'' started) = engine_calls started"
  by (simp add: run_defs setLang_def)

end
